theory Spec2Isabelle
  imports Main
begin

section \<open>Python strings\<close>

text \<open>
  A Python \<open>str\<close> is a sequence of Unicode code points. A code point is modelled by its
  number, so that the line boundaries and the white space outside ASCII that
  \<open>str.splitlines\<close> and \<open>str.strip\<close> recognise are part of the model.
  String literals of the source are written \<open>py ''...''\<close>.
\<close>

type_synonym pychar = nat
type_synonym pystr = "pychar list"

definition py :: "string \<Rightarrow> pystr" where
  "py s = map of_char s"

text \<open>The line boundaries of \<open>str.splitlines\<close>: LF, VT, FF, CR, FS, GS, RS, NEL, LS, PS.\<close>

definition is_linebreak :: "pychar \<Rightarrow> bool" where
  "is_linebreak c \<longleftrightarrow>
     (10 \<le> c \<and> c \<le> 13) \<or> (28 \<le> c \<and> c \<le> 30) \<or> c = 133 \<or> c = 8232 \<or> c = 8233"

text \<open>The characters for which \<open>str.isspace\<close> holds; \<open>str.strip()\<close> removes them.\<close>

definition is_space :: "pychar \<Rightarrow> bool" where
  "is_space c \<longleftrightarrow>
     (9 \<le> c \<and> c \<le> 13) \<or> (28 \<le> c \<and> c \<le> 32) \<or> c = 133 \<or> c = 160 \<or> c = 5760 \<or>
     (8192 \<le> c \<and> c \<le> 8202) \<or> c = 8232 \<or> c = 8233 \<or> c = 8239 \<or> c = 8287 \<or> c = 12288"

text \<open>
  \<open>s.splitlines()\<close>: the text is cut at every line boundary, CR LF counting as one
  boundary; the boundaries are not kept, and a text that ends in a boundary has no empty
  last line. The first argument is the line read so far.
\<close>

fun splitlines_from :: "pystr \<Rightarrow> pystr \<Rightarrow> pystr list" where
  "splitlines_from cur [] = (if cur = [] then [] else [cur])"
| "splitlines_from cur (c # cs) =
     (if \<not> is_linebreak c then splitlines_from (cur @ [c]) cs
      else cur # (case cs of
                    [] \<Rightarrow> splitlines_from [] cs
                  | d # ds \<Rightarrow> if c = 13 \<and> d = 10 then splitlines_from [] ds
                             else splitlines_from [] cs))"

definition splitlines :: "pystr \<Rightarrow> pystr list" where
  "splitlines s = splitlines_from [] s"

text \<open>\<open>s.strip()\<close>: white space is removed at both ends.\<close>

definition strip :: "pystr \<Rightarrow> pystr" where
  "strip s = rev (dropWhile is_space (rev (dropWhile is_space s)))"

text \<open>\<open>s.startswith(p)\<close>.\<close>

definition startswith :: "pystr \<Rightarrow> pystr \<Rightarrow> bool" where
  "startswith s p \<longleftrightarrow> take (length p) s = p"

text \<open>\<open>sep.join(xs)\<close>.\<close>

fun join :: "pystr \<Rightarrow> pystr list \<Rightarrow> pystr" where
  "join sep [] = []"
| "join sep [x] = x"
| "join sep (x # y # ys) = x @ sep @ join sep (y # ys)"

text \<open>\<open>str(n)\<close> for an integer: decimal digits, with a minus sign below zero.\<close>

definition digit_char :: "nat \<Rightarrow> pychar" where
  "digit_char d = 48 + d"

fun str_nat :: "nat \<Rightarrow> pystr" where
  "str_nat n = (if n < 10 then [digit_char n] else str_nat (n div 10) @ [digit_char (n mod 10)])"

declare str_nat.simps [simp del]

definition str_int :: "int \<Rightarrow> pystr" where
  "str_int i = (if i < 0 then 45 # str_nat (nat (- i)) else str_nat (nat i))"

definition nl :: pystr where
  "nl = [10]"

definition hash :: pystr where
  "hash = py ''#''"

definition backtick :: pystr where
  "backtick = py ''`''"

definition fence_open :: pystr where
  "fence_open = py ''```python''"

definition fence_close :: pystr where
  "fence_close = py ''```''"

section \<open>The response sanitizer: \<open>generate_code\<close>\<close>

text \<open>
  What the generation service returns for one call, as \<open>generate_code\<close> sees it: the
  content of the first choice, the wall-clock time the call took, that time rendered by
  the format \<open>.3f\<close>, and the time stamp rendered by \<open>strftime\<close>. Times are values of
  any linearly ordered type with an addition.
\<close>

record 't reply =
  content :: pystr
  generation_time :: 't
  generation_time_text :: pystr
  timestamp :: pystr

text \<open>
  The loop of lines 86 to 90: the index of the first line that strips to the opening
  fence. The sentinel \<open>-1\<close> of the source is \<open>None\<close>.
\<close>

fun find_fence :: "pystr list \<Rightarrow> nat \<Rightarrow> nat option" where
  "find_fence [] i = None"
| "find_fence (l # ls) i = (if strip l = fence_open then Some i else find_fence ls (Suc i))"

definition code_start_idx :: "pystr list \<Rightarrow> nat option" where
  "code_start_idx lines = find_fence lines 0"

text \<open>A line gets a leading \<open>#\<close> unless it has one.\<close>

definition comment_out :: "pystr \<Rightarrow> pystr" where
  "comment_out l = (if \<not> startswith l hash then hash @ l else l)"

text \<open>Lines 94 to 96: the first \<open>n\<close> lines of the list are commented out in place.\<close>

definition comment_prefix :: "nat \<Rightarrow> pystr list \<Rightarrow> pystr list" where
  "comment_prefix n lines = map comment_out (take n lines) @ drop n lines"

text \<open>Lines 98 to 102: lines are collected up to the first one that strips to the closing fence.\<close>

fun collect_code :: "pystr list \<Rightarrow> pystr list" where
  "collect_code [] = []"
| "collect_code (l # ls) = (if strip l = fence_close then [] else l # collect_code ls)"

text \<open>Lines 83 to 106: the code taken from the response, before the backtick pass.\<close>

definition extract_code :: "pystr \<Rightarrow> pystr" where
  "extract_code c =
     (let lines = splitlines c in
      case code_start_idx lines of
        Some k \<Rightarrow>
          (let lines' = comment_prefix (k + 1) lines
           in join nl (collect_code (drop (k + 1) lines')))
      | None \<Rightarrow> join nl (map comment_out lines))"

text \<open>Lines 109 to 113: a line whose stripped form starts with a backtick gets a leading \<open>#\<close>.\<close>

definition comment_backtick :: "pystr \<Rightarrow> pystr" where
  "comment_backtick l = (if startswith (strip l) backtick then hash @ l else l)"

definition comment_backticks :: "pystr \<Rightarrow> pystr" where
  "comment_backticks code = join nl (map comment_backtick (splitlines code))"

text \<open>The body of the candidate: the code after the backtick pass, without the header.\<close>

definition sanitize :: "pystr \<Rightarrow> pystr" where
  "sanitize c = comment_backticks (extract_code c)"

text \<open>Line 116: the number of lines of a text that are not blank.\<close>

definition count_loc :: "pystr \<Rightarrow> nat" where
  "count_loc code = length (filter (\<lambda>line. strip line \<noteq> []) (splitlines code))"

text \<open>Lines 119 to 124: the four comment lines put before the code.\<close>

definition header :: "pystr \<Rightarrow> pystr \<Rightarrow> 't reply \<Rightarrow> pystr" where
  "header prompt_file model r =
     py ''# Generated from prompt file: '' @ prompt_file @ nl @
     py ''# Model used: '' @ model @ nl @
     py ''# Time generated: '' @ timestamp r @ nl @
     py ''# Generation time: '' @ generation_time_text r @ py '' seconds'' @ nl"

text \<open>
  \<open>generate_code\<close>, from the reply of the service on: the candidate (header and body), the
  generation time and the line count.
\<close>

definition generate_code :: "pystr \<Rightarrow> pystr \<Rightarrow> 't reply \<Rightarrow> pystr \<times> 't \<times> nat" where
  "generate_code prompt_file model r =
     (let code = sanitize (content r);
          loc = count_loc code
      in (header prompt_file model r @ code, generation_time r, loc))"

section \<open>The candidate runner: \<open>test_code\<close>\<close>

text \<open>
  The configuration read from \<open>config.txt\<close> (lines 51 to 60). \<open>base_name\<close> is computed
  from \<open>source_file\<close> below.
\<close>

record 't config =
  model :: pystr
  max_attempts :: int
  max_time :: 't
  prompt_file :: pystr
  source_file :: pystr
  print_output :: bool
  print_code :: bool
  print_runtime_error_messages :: bool
  interpreter :: pystr

text \<open>
  \<open>p.rfind(c)\<close> for a single character: the index of its last occurrence, \<open>-1\<close> when
  there is none.
\<close>

definition rfind :: "pystr \<Rightarrow> pychar \<Rightarrow> int" where
  "rfind p c =
     (if c \<in> set p then int (length p) - 1 - int (length (takeWhile (\<lambda>x. x \<noteq> c) (rev p)))
      else - 1)"

text \<open>
  \<open>os.path.splitext\<close> of \<open>posixpath\<close>: the path is cut at the last dot, when that dot
  comes after the last slash and after a character of the file name that is not a dot.
\<close>

definition splitext :: "pystr \<Rightarrow> pystr \<times> pystr" where
  "splitext p =
     (let sepIndex = rfind p 47;
          dotIndex = rfind p 46
      in if dotIndex > sepIndex \<and>
            list_ex (\<lambda>x. x \<noteq> 46)
              (take (nat dotIndex - nat (sepIndex + 1)) (drop (nat (sepIndex + 1)) p))
         then (take (nat dotIndex) p, drop (nat dotIndex) p)
         else (p, []))"

definition base_name :: "'t config \<Rightarrow> pystr" where
  "base_name cfg = fst (splitext (source_file cfg))"

text \<open>
  The file store: a file is identified with its path, and holds a text. The exceptions of
  the file operations that the store can decide are values.
\<close>

type_synonym files = "pystr \<rightharpoonup> pystr"

datatype io_error = FileNotFoundError | SameFileError

text \<open>\<open>shutil.copyfile(src, dst)\<close>.\<close>

definition copyfile :: "pystr \<Rightarrow> pystr \<Rightarrow> files \<Rightarrow> io_error + files" where
  "copyfile src dst fs =
     (case fs src of
        None \<Rightarrow> Inl FileNotFoundError
      | Some text \<Rightarrow> if src = dst then Inl SameFileError else Inr (fs(dst \<mapsto> text)))"

text \<open>
  The interpreter subprocess, as far as the runner observes it: its exit status, its
  standard output and its standard error are a function of the command line, of the text
  it finds at the path of the script (\<open>None\<close> when there is no such file) and of its
  standard input. The subprocess is taken not to write to the file store itself, and a
  command that cannot be started (an exception of \<open>subprocess.run\<close>) is left out.
\<close>

type_synonym subprocess = "pystr list \<Rightarrow> pystr option \<Rightarrow> pystr \<Rightarrow> int \<times> pystr \<times> pystr"

definition temp_runtime_error :: pystr where
  "temp_runtime_error = py ''temp_runtime_error.txt''"

definition archive_filename :: "'t config \<Rightarrow> int \<Rightarrow> pystr" where
  "archive_filename cfg attempt = base_name cfg @ str_int (attempt - 1) @ py ''.py''"

text \<open>
  \<open>test_code(code, filename, attempt)\<close> on a file store: the triple it returns and the
  store it leaves, or the exception of the archive copy. With
  \<open>print_runtime_error_messages\<close> the standard error comes through a pipe; without it
  the subprocess writes it to the file \<open>temp_runtime_error.txt\<close>, which is opened for
  writing before the run (so created or emptied), read after it and removed.
\<close>

definition test_code ::
  "'t config \<Rightarrow> subprocess \<Rightarrow> pystr \<Rightarrow> pystr \<Rightarrow> int \<Rightarrow> files
     \<Rightarrow> io_error + ((bool \<times> pystr \<times> pystr) \<times> files)" where
  "test_code cfg run code filename attempt fs =
     (case (if attempt > 1 then copyfile filename (archive_filename cfg attempt) fs
            else Inr fs) of
        Inl e \<Rightarrow> Inl e
      | Inr fs1 \<Rightarrow>
          (let fs2 = fs1(filename \<mapsto> code);
               run_command = [interpreter cfg, filename]
           in if print_runtime_error_messages cfg then
                (let (returncode, output, error) = run run_command (fs2 filename) (py ''5'' @ nl)
                 in Inr ((returncode = 0, output, error), fs2))
              else
                (let fs3 = fs2(temp_runtime_error \<mapsto> []);
                     (returncode, output, stderr) = run run_command (fs3 filename) (py ''5'' @ nl);
                     fs4 = fs3(temp_runtime_error \<mapsto> stderr);
                     error = (case fs4 temp_runtime_error of Some text \<Rightarrow> text | None \<Rightarrow> []);
                     fs5 = fs4(temp_runtime_error := None)
                 in Inr ((returncode = 0, output, error), fs5))))"

section \<open>The refinement loop\<close>

text \<open>
  The collaborators of a run: the reply of the generation service to its \<open>n\<close>-th call,
  given the prompt, and the behaviour of the interpreter at its \<open>n\<close>-th call (calls are
  counted from 0).
\<close>

type_synonym 't generator = "nat \<Rightarrow> pystr \<Rightarrow> 't reply"
type_synonym executor = "nat \<Rightarrow> subprocess"

text \<open>The prompts of lines 166 and 200 to 203.\<close>

definition initial_prompt :: "pystr \<Rightarrow> pystr" where
  "initial_prompt text = text @ py ''Only output Python code. Do not give commentary.'' @ nl"

definition repair_prompt :: "pystr \<Rightarrow> pystr \<Rightarrow> pystr" where
  "repair_prompt code error =
     py ''The following Python code failed to run: '' @ nl @ py ''```python'' @ nl @
     code @ nl @ py ''```'' @ nl @
     py ''Error: '' @ error @ nl @
     py ''Please fix the code and return it in a ```python``` block.''"

text \<open>
  The variables of the loop, and with them the file store and the history of the run:
  the number of generation calls and of interpreter runs made so far, and the value of
  \<open>total_gen_time\<close> after each generation call, the latest last. The console output, and
  the variables read only for it, are left out.
\<close>

record 't loop_state =
  code :: pystr
  total_gen_time :: 't
  attempts :: int
  files :: files
  n_gen :: nat
  n_exec :: nat
  totals :: "'t list"

datatype outcome = Succeeded | FailedMaxTime | FailedMaxAttempts | Aborted io_error

datatype 't step = Break outcome "'t loop_state" | Continue "'t loop_state"

text \<open>Lines 169 to 171: the first generation call.\<close>

definition initial_state ::
  "('t::{plus,linorder}) config \<Rightarrow> 't generator \<Rightarrow> pystr \<Rightarrow> files \<Rightarrow> 't loop_state" where
  "initial_state cfg gen text fs =
     (let (code, initial_gen_time, initial_loc) =
            generate_code (prompt_file cfg) (model cfg) (gen 0 (initial_prompt text))
      in \<lparr>code = code, total_gen_time = initial_gen_time, attempts = 1, files = fs,
          n_gen = 1, n_exec = 0, totals = [initial_gen_time]\<rparr>)"

text \<open>Lines 175 to 213: one pass through the body of \<open>while True\<close>.\<close>

definition loop_body ::
  "('t::{plus,linorder}) config \<Rightarrow> 't generator \<Rightarrow> executor \<Rightarrow> 't loop_state \<Rightarrow> 't step" where
  "loop_body cfg gen exec s =
     (case test_code cfg (exec (n_exec s)) (code s) (source_file cfg) (attempts s) (files s) of
        Inl e \<Rightarrow> Break (Aborted e) s
      | Inr ((success, output, error), fs') \<Rightarrow>
          (let s1 = s\<lparr>files := fs', n_exec := n_exec s + 1\<rparr>
           in if success then Break Succeeded s1
              else if total_gen_time s1 \<ge> max_time cfg then Break FailedMaxTime s1
              else
                (let prompt = repair_prompt (code s1) error;
                     (code', gen_time, loc) =
                        generate_code (prompt_file cfg) (model cfg) (gen (n_gen s1) prompt);
                     s2 = s1\<lparr>code := code',
                             total_gen_time := total_gen_time s1 + gen_time,
                             attempts := attempts s1 + 1,
                             n_gen := n_gen s1 + 1,
                             totals := totals s1 @ [total_gen_time s1 + gen_time]\<rparr>
                 in if attempts s2 > max_attempts cfg then Break FailedMaxAttempts s2
                    else Continue s2)))"

text \<open>
  Lines 174 to 213: the loop. Every pass that does not break raises \<open>attempts\<close> by one and
  leaves it at most \<open>max_attempts\<close>, so the loop is a total function of the collaborators.
\<close>

function refine_loop ::
  "('t::{plus,linorder}) config \<Rightarrow> 't generator \<Rightarrow> executor \<Rightarrow> 't loop_state
     \<Rightarrow> outcome \<times> 't loop_state" where
  "refine_loop cfg gen exec s =
     (case loop_body cfg gen exec s of
        Break out s' \<Rightarrow> (out, s')
      | Continue s' \<Rightarrow> refine_loop cfg gen exec s')"
  by pat_completeness auto
termination
proof (relation "measure (\<lambda>(cfg, gen, exec, s). nat (max_attempts cfg + 1 - attempts s))")
  show "wf (measure (\<lambda>(cfg, gen, exec, s). nat (max_attempts cfg + 1 - attempts s)))"
    by simp
next
  fix cfg :: "('t::{plus,linorder}) config" and gen :: "'t generator" and exec :: executor
    and s s' :: "'t loop_state"
  assume "loop_body cfg gen exec s = Continue s'"
  then have "attempts s' = attempts s + 1 \<and> attempts s' \<le> max_attempts cfg"
    by (auto simp: loop_body_def Let_def split: sum.splits prod.splits if_splits)
  then show "((cfg, gen, exec, s'), (cfg, gen, exec, s))
      \<in> measure (\<lambda>(cfg, gen, exec, s). nat (max_attempts cfg + 1 - attempts s))"
    by simp
qed

declare refine_loop.simps [simp del]

text \<open>Lines 164 to 213: a whole run, from the text of the prompt file and a file store.\<close>

definition main ::
  "('t::{plus,linorder}) config \<Rightarrow> 't generator \<Rightarrow> executor \<Rightarrow> pystr \<Rightarrow> files
     \<Rightarrow> outcome \<times> 't loop_state" where
  "main cfg gen exec text fs = refine_loop cfg gen exec (initial_state cfg gen text fs)"

section \<open>Notions used in the statements\<close>

text \<open>A text without a line boundary: what \<open>splitlines\<close> returns as one line.\<close>

definition no_linebreak :: "pystr \<Rightarrow> bool" where
  "no_linebreak l \<longleftrightarrow> list_all (\<lambda>c. \<not> is_linebreak c) l"

text \<open>
  A list of lines without its last line when that one is empty: what is left of the lines
  when they are joined by newlines and split again.
\<close>

definition drop_final_empty :: "pystr list \<Rightarrow> pystr list" where
  "drop_final_empty xs = (if xs \<noteq> [] \<and> last xs = [] then butlast xs else xs)"

text \<open>
  The fenced region as the specification words it: the lines strictly between the opening
  fence, at index \<open>k\<close>, and the first line after it that is the closing fence, or the
  end of the input.
\<close>

definition fenced_region :: "nat \<Rightarrow> pystr list \<Rightarrow> pystr list" where
  "fenced_region k lines = takeWhile (\<lambda>l. strip l \<noteq> fence_close) (drop (Suc k) lines)"

definition nonblank :: "pystr \<Rightarrow> bool" where
  "nonblank l \<longleftrightarrow> strip l \<noteq> []"

text \<open>
  The text that the interpreter finds at the path of the script: the candidate, unless the
  path is that of the file for the standard error and that file has just been emptied.
\<close>

definition script_seen :: "'t config \<Rightarrow> pystr \<Rightarrow> pystr \<Rightarrow> pystr" where
  "script_seen cfg filename c =
     (if \<not> print_runtime_error_messages cfg \<and> filename = temp_runtime_error then [] else c)"

text \<open>
  The state after the run of a candidate, and after the repair that follows a failed run
  within the time budget (the new candidate, the times, the counters).
\<close>

definition after_run :: "'t loop_state \<Rightarrow> files \<Rightarrow> 't loop_state" where
  "after_run s fs' = s\<lparr>files := fs', n_exec := n_exec s + 1\<rparr>"

definition after_repair ::
  "('t::{plus,linorder}) config \<Rightarrow> 't generator \<Rightarrow> 't loop_state \<Rightarrow> pystr \<Rightarrow> 't loop_state" where
  "after_repair cfg gen s1 error =
     (let r = generate_code (prompt_file cfg) (model cfg)
                (gen (n_gen s1) (repair_prompt (code s1) error))
      in s1\<lparr>code := fst r,
            total_gen_time := total_gen_time s1 + fst (snd r),
            attempts := attempts s1 + 1,
            n_gen := n_gen s1 + 1,
            totals := totals s1 @ [total_gen_time s1 + fst (snd r)]\<rparr>)"

text \<open>
  What holds of the times at the head of the loop: the history is not empty, it ends with
  the current \<open>total_gen_time\<close>, and every earlier total was below \<open>max_time\<close>. And of
  the counters: each generation call left one total, \<open>attempts\<close> is the number of
  generation calls, one more than the number of runs, and at most \<open>max_attempts\<close> (or 1).
\<close>

definition time_invariant :: "('t::{plus,linorder}) config \<Rightarrow> 't loop_state \<Rightarrow> bool" where
  "time_invariant cfg s \<longleftrightarrow>
     totals s \<noteq> [] \<and> last (totals s) = total_gen_time s \<and>
     list_all (\<lambda>T. T < max_time cfg) (butlast (totals s))"


section \<open>Example runs\<close>

text \<open>
  A configuration with three attempts and a budget of 1000 seconds, one with a budget of
  2 seconds, and one whose source file is named like the file for the standard error. A
  generation service that takes one second for each call and returns, at call \<open>n\<close>, the
  fenced program \<open>f(n)\<close>; \<open>demo_candidate n\<close> is the candidate made of that reply.
  An interpreter that always fails, one that always succeeds, and one that succeeds on
  the empty script only.
\<close>

definition demo_config :: "int config" where
  "demo_config =
     \<lparr>model = py ''llama'', max_attempts = 3, max_time = 1000, prompt_file = py ''prompt.txt'',
      source_file = py ''foo.py'', print_output = True, print_code = False,
      print_runtime_error_messages = False, interpreter = py ''python3''\<rparr>"

definition demo_gen :: "int generator" where
  "demo_gen n prompt =
     \<lparr>content = py ''```python'' @ nl @ py ''f('' @ str_nat n @ py '')'' @ nl @ py ''```'',
      generation_time = 1, generation_time_text = py ''1.000'', timestamp = py ''now''\<rparr>"

definition always_fails :: executor where
  "always_fails n cmd script input = (1, [], py ''NameError'')"

definition always_ok :: executor where
  "always_ok n cmd script input = (0, py ''done'', [])"

definition empty_only :: executor where
  "empty_only n cmd script input =
     (if script = Some [] then (0, [], []) else (1, [], py ''NameError''))"

definition no_files :: files where
  "no_files = Map.empty"

definition tight_config :: "int config" where
  "tight_config = demo_config\<lparr>max_time := 2\<rparr>"

definition clash_config :: "int config" where
  "clash_config = demo_config\<lparr>source_file := temp_runtime_error\<rparr>"

definition demo_candidate :: "nat \<Rightarrow> pystr" where
  "demo_candidate n =
     fst (generate_code (prompt_file demo_config) (model demo_config) (demo_gen n []))"

section \<open>Lines, joining and splitting\<close>

lemma no_linebreak_simps [simp]:
  "no_linebreak []" "no_linebreak (c # l) \<longleftrightarrow> \<not> is_linebreak c \<and> no_linebreak l"
  "no_linebreak (a @ b) \<longleftrightarrow> no_linebreak a \<and> no_linebreak b"
  by (simp_all add: no_linebreak_def)

lemma splitlines_from_no_linebreak:
  "no_linebreak cur \<Longrightarrow> l \<in> set (splitlines_from cur s) \<Longrightarrow> no_linebreak l"
proof (induction cur s rule: splitlines_from.induct)
  case (1 cur)
  then show ?case by (simp split: if_splits)
next
  case (2 cur c cs)
  show ?case
  proof (cases "is_linebreak c")
    case False
    with 2 show ?thesis by simp
  next
    case True
    show ?thesis
    proof (cases cs)
      case Nil
      with True "2.prems" show ?thesis by auto
    next
      case (Cons d ds)
      show ?thesis
      proof (cases "c = 13 \<and> d = 10")
        case crlf: True
        with True Cons "2.prems" have "l = cur \<or> l \<in> set (splitlines_from [] ds)" by simp
        with "2.IH"(3) [OF _ Cons crlf] True "2.prems"(1) show ?thesis by auto
      next
        case other: False
        with True Cons "2.prems" have "l = cur \<or> l \<in> set (splitlines_from [] cs)" by auto
        with "2.IH"(4) [OF _ Cons other] True "2.prems"(1) show ?thesis by auto
      qed
    qed
  qed
qed

lemma splitlines_no_linebreak: "l \<in> set (splitlines s) \<Longrightarrow> no_linebreak l"
  unfolding splitlines_def by (rule splitlines_from_no_linebreak [of "[]"]) simp_all

lemma splitlines_from_append:
  "no_linebreak l \<Longrightarrow> splitlines_from cur (l @ rest) = splitlines_from (cur @ l) rest"
  by (induction l arbitrary: cur) simp_all

lemma splitlines_from_nl: "splitlines_from cur (nl @ rest) = cur # splitlines_from [] rest"
  by (cases rest) (simp_all add: nl_def is_linebreak_def)

lemma splitlines_line_nl:
  "no_linebreak l \<Longrightarrow> splitlines (l @ nl @ rest) = l # splitlines rest"
  using splitlines_from_append [of l "[]" "nl @ rest"]
  by (simp add: splitlines_def splitlines_from_nl)

lemma splitlines_join:
  "\<forall>l\<in>set xs. no_linebreak l \<Longrightarrow> splitlines (join nl xs) = drop_final_empty xs"
proof (induction nl xs rule: join.induct)
  case 1
  then show ?case by (simp add: splitlines_def drop_final_empty_def)
next
  case (2 x)
  then have "splitlines_from [] (x @ []) = splitlines_from ([] @ x) []"
    by (intro splitlines_from_append) simp
  then show ?case by (simp add: splitlines_def drop_final_empty_def)
next
  case (3 x y ys)
  then have x: "no_linebreak x" and r: "\<forall>l\<in>set (y # ys). no_linebreak l" by simp_all
  have "splitlines (join nl (x # y # ys)) = x # splitlines (join nl (y # ys))"
    using splitlines_line_nl [OF x] by simp
  also have "\<dots> = x # drop_final_empty (y # ys)"
    using 3 r by simp
  finally show ?case by (simp add: drop_final_empty_def)
qed

lemma strip_nonspace_head:
  "\<not> is_space c \<Longrightarrow> strip (c # s) = c # rev (dropWhile is_space (rev s))"
  by (simp add: strip_def dropWhile_append3)

lemma hash_eq: "hash = [35]"
  by (simp add: hash_def py_def)

lemma backtick_eq: "backtick = [96]"
  by (simp add: backtick_def py_def)

lemma strip_hash_line: "strip (hash @ l) = 35 # rev (dropWhile is_space (rev l))"
  by (simp add: hash_eq strip_nonspace_head is_space_def)

lemma startswith_hash: "startswith l hash \<longleftrightarrow> (\<exists>r. l = 35 # r)"
  by (cases l) (auto simp: startswith_def hash_eq)

lemma comment_out_hash: "startswith (comment_out l) hash"
  by (simp add: comment_out_def) (simp add: startswith_def hash_eq)

lemma comment_out_no_linebreak: "no_linebreak l \<Longrightarrow> no_linebreak (comment_out l)"
  by (simp add: comment_out_def hash_eq is_linebreak_def)

lemma comment_backtick_hash:
  assumes "startswith l hash"
  shows "comment_backtick l = l"
proof -
  from assms obtain r where "l = 35 # r" by (auto simp: startswith_hash)
  then have "\<not> startswith (strip l) backtick"
    by (simp add: strip_nonspace_head is_space_def startswith_def backtick_eq)
  then show ?thesis by (simp add: comment_backtick_def)
qed

lemma comment_backtick_no_backtick: "\<not> startswith (strip (comment_backtick l)) backtick"
  by (simp add: comment_backtick_def strip_hash_line) (simp add: startswith_def backtick_eq)

lemma comment_backtick_no_linebreak:
  "no_linebreak l \<Longrightarrow> no_linebreak (comment_backtick l)"
  by (simp add: comment_backtick_def hash_eq is_linebreak_def)

lemma strip_Nil [simp]: "strip [] = []"
  by (simp add: strip_def)

lemma comment_backtick_empty: "comment_backtick l = [] \<longleftrightarrow> l = []"
  by (cases l) (simp_all add: comment_backtick_def hash_eq startswith_def backtick_eq)

lemma comment_backtick_nonblank: "nonblank (comment_backtick l) \<longleftrightarrow> nonblank l"
  by (auto simp: nonblank_def comment_backtick_def strip_hash_line startswith_def backtick_eq)

lemma drop_final_empty_map:
  "(\<And>x. f x = [] \<longleftrightarrow> x = []) \<Longrightarrow> drop_final_empty (map f xs) = map f (drop_final_empty xs)"
proof (cases "xs = []")
  case True
  then show ?thesis by (simp add: drop_final_empty_def)
next
  case False
  assume f: "\<And>x. f x = [] \<longleftrightarrow> x = []"
  from False have "last (map f xs) = f (last xs)" by (simp add: last_map)
  with f have "last (map f xs) = [] \<longleftrightarrow> last xs = []" by simp
  with False show ?thesis by (simp add: drop_final_empty_def map_butlast)
qed

lemma filter_nonblank_drop_final_empty:
  "filter nonblank (drop_final_empty xs) = filter nonblank xs"
proof (cases "xs \<noteq> [] \<and> last xs = []")
  case True
  then have "xs = butlast xs @ [[]]" by (metis append_butlast_last_id)
  then have "filter nonblank xs = filter nonblank (butlast xs @ [[]])" by simp
  also have "\<dots> = filter nonblank (butlast xs)" by (simp add: nonblank_def)
  finally show ?thesis using True by (simp add: drop_final_empty_def)
next
  case False
  then show ?thesis by (auto simp add: drop_final_empty_def)
qed


lemma find_fence_None: "find_fence ls i = None \<longleftrightarrow> (\<forall>l\<in>set ls. strip l \<noteq> fence_open)"
  by (induction ls arbitrary: i) auto

lemma find_fence_takeWhile:
  "find_fence ls i =
     (if \<exists>l\<in>set ls. strip l = fence_open
      then Some (i + length (takeWhile (\<lambda>l. strip l \<noteq> fence_open) ls)) else None)"
  by (induction ls arbitrary: i) auto

lemma code_start_idx_Some:
  "code_start_idx ls = Some k \<longleftrightarrow>
     k < length ls \<and> strip (ls ! k) = fence_open \<and> (\<forall>j<k. strip (ls ! j) \<noteq> fence_open)"
  (is "?L \<longleftrightarrow> ?R")
proof
  let ?P = "\<lambda>l. strip l \<noteq> fence_open"
  assume ?L
  then have ex: "\<exists>l\<in>set ls. strip l = fence_open"
    and k: "k = length (takeWhile ?P ls)"
    by (auto simp: code_start_idx_def find_fence_takeWhile split: if_splits)
  have "takeWhile ?P ls \<noteq> ls" using ex by simp
  then have "k \<noteq> length ls" unfolding k by (metis takeWhile_eq_take take_all order_refl)
  with length_takeWhile_le [of ?P ls] have lt: "k < length ls" unfolding k by simp
  then have a: "strip (ls ! k) = fence_open"
    using nth_length_takeWhile [of ?P ls] unfolding k by simp
  have b: "strip (ls ! j) \<noteq> fence_open" if "j < k" for j
  proof -
    from that have "takeWhile ?P ls ! j \<in> set (takeWhile ?P ls)" unfolding k by simp
    then have "?P (takeWhile ?P ls ! j)" by (rule set_takeWhileD [THEN conjunct2])
    with that show ?thesis unfolding k by (simp add: takeWhile_nth)
  qed
  from lt a b show ?R by simp
next
  let ?P = "\<lambda>l. strip l \<noteq> fence_open"
  assume r: ?R
  then have "ls ! k \<in> set ls" by simp
  with r have ex: "\<exists>l\<in>set ls. strip l = fence_open" by blast
  from r have "takeWhile ?P ls = take k ls"
    by (intro takeWhile_eq_take_P_nth) simp_all
  with r ex show ?L by (simp add: code_start_idx_def find_fence_takeWhile)
qed

lemma code_start_idx_None:
  "code_start_idx ls = None \<longleftrightarrow> (\<forall>l\<in>set ls. strip l \<noteq> fence_open)"
  by (simp add: code_start_idx_def find_fence_None)

lemma collect_code_takeWhile: "collect_code ls = takeWhile (\<lambda>l. strip l \<noteq> fence_close) ls"
  by (induction ls) simp_all

lemma drop_comment_prefix: "drop n (comment_prefix n ls) = drop n ls"
  by (simp add: comment_prefix_def min_def)

lemma extract_code_fenced:
  "code_start_idx (splitlines c) = Some k \<Longrightarrow>
     extract_code c = join nl (fenced_region k (splitlines c))"
  by (simp add: extract_code_def drop_comment_prefix collect_code_takeWhile fenced_region_def)

lemma extract_code_unfenced:
  "code_start_idx (splitlines c) = None \<Longrightarrow>
     extract_code c = join nl (map comment_out (splitlines c))"
  by (simp add: extract_code_def)

lemma drop_final_empty_id: "\<forall>x\<in>set xs. x \<noteq> [] \<Longrightarrow> drop_final_empty xs = xs"
  by (auto simp: drop_final_empty_def)

lemma comment_out_nonempty: "comment_out l \<noteq> []"
  using comment_out_hash [of l] by (auto simp: startswith_hash)

lemma comment_out_nonblank: "nonblank (comment_out l)"
proof -
  obtain r where "comment_out l = 35 # r"
    using comment_out_hash [of l] by (auto simp: startswith_hash)
  then show ?thesis by (simp add: nonblank_def strip_nonspace_head is_space_def)
qed

lemma sanitize_lines:
  "splitlines (sanitize c) = map comment_backtick (drop_final_empty (splitlines (extract_code c)))"
proof -
  have "\<forall>l\<in>set (map comment_backtick (splitlines (extract_code c))). no_linebreak l"
    by (auto intro: comment_backtick_no_linebreak splitlines_no_linebreak)
  then have "splitlines (sanitize c) =
      drop_final_empty (map comment_backtick (splitlines (extract_code c)))"
    unfolding sanitize_def comment_backticks_def by (rule splitlines_join)
  then show ?thesis by (simp add: drop_final_empty_map comment_backtick_empty)
qed

lemma splitlines_commented:
  "splitlines (join nl (map comment_out (splitlines c))) = map comment_out (splitlines c)"
proof -
  have "\<forall>l\<in>set (map comment_out (splitlines c)). no_linebreak l"
    by (auto intro: comment_out_no_linebreak splitlines_no_linebreak)
  then have "splitlines (join nl (map comment_out (splitlines c))) =
      drop_final_empty (map comment_out (splitlines c))"
    by (rule splitlines_join)
  also have "\<dots> = map comment_out (splitlines c)"
    by (rule drop_final_empty_id) (auto simp: comment_out_nonempty)
  finally show ?thesis .
qed

lemma sanitize_unfenced:
  assumes "code_start_idx (splitlines c) = None"
  shows "sanitize c = join nl (map comment_out (splitlines c))"
proof -
  have "map comment_backtick (map comment_out (splitlines c)) = map comment_out (splitlines c)"
    by (simp add: comment_backtick_hash comment_out_hash)
  with assms show ?thesis
    by (simp add: sanitize_def comment_backticks_def extract_code_unfenced splitlines_commented
        del: map_map)
qed

lemma fenced_region_no_linebreak:
  "l \<in> set (fenced_region k (splitlines c)) \<Longrightarrow> no_linebreak l"
  by (auto simp: fenced_region_def dest!: set_takeWhileD in_set_dropD intro: splitlines_no_linebreak)

lemma sanitize_fenced:
  assumes "code_start_idx (splitlines c) = Some k"
  shows "sanitize c =
    join nl (map comment_backtick (drop_final_empty (fenced_region k (splitlines c))))"
proof -
  have "splitlines (join nl (fenced_region k (splitlines c))) =
      drop_final_empty (fenced_region k (splitlines c))"
    by (rule splitlines_join) (simp add: fenced_region_no_linebreak)
  with assms show ?thesis
    by (simp add: sanitize_def comment_backticks_def extract_code_fenced)
qed

lemma count_loc_nonblank: "count_loc s = length (filter nonblank (splitlines s))"
proof -
  have "nonblank = (\<lambda>line. strip line \<noteq> [])"
    by (simp add: fun_eq_iff nonblank_def)
  then show ?thesis by (simp add: count_loc_def)
qed

lemma count_loc_sanitize:
  "count_loc (sanitize c) = length (filter nonblank (splitlines (extract_code c)))"
proof -
  have "filter nonblank (map comment_backtick xs) = map comment_backtick (filter nonblank xs)"
    for xs by (induction xs) (simp_all add: comment_backtick_nonblank)
  then have "length (filter nonblank (map comment_backtick xs)) = length (filter nonblank xs)"
    for xs by simp
  then show ?thesis
    by (simp add: count_loc_nonblank sanitize_lines filter_nonblank_drop_final_empty)
qed

lemma in_drop_final_empty: "l \<in> set xs \<Longrightarrow> l \<noteq> [] \<Longrightarrow> l \<in> set (drop_final_empty xs)"
proof (cases "xs \<noteq> [] \<and> last xs = []")
  case True
  assume l: "l \<in> set xs" "l \<noteq> []"
  from True have "xs = butlast xs @ [[]]" by (metis append_butlast_last_id)
  then have "set xs = set (butlast xs) \<union> {[]}" by (metis set_append list.set(1,2) Un_insert_right sup_bot.right_neutral insert_is_Un)
  with l have "l \<in> set (butlast xs)" by auto
  with True show ?thesis by (simp add: drop_final_empty_def)
next
  case False
  assume "l \<in> set xs"
  with False show ?thesis by (auto simp: drop_final_empty_def)
qed

lemma leading_backtick_nonempty: "startswith (strip l) backtick \<Longrightarrow> l \<noteq> []"
  by (auto simp: startswith_def backtick_eq)

lemma backtick_line_commented:
  assumes "l \<in> set xs" "startswith (strip l) backtick"
  shows "hash @ l \<in> set (map comment_backtick (drop_final_empty xs))"
proof -
  from assms have "l \<in> set (drop_final_empty xs)"
    by (intro in_drop_final_empty leading_backtick_nonempty)
  then have "comment_backtick l \<in> set (map comment_backtick (drop_final_empty xs))"
    by simp
  with assms(2) show ?thesis by (simp add: comment_backtick_def)
qed

lemma header_literals:
  "no_linebreak (py ''# Generated from prompt file: '')"
  "no_linebreak (py ''# Model used: '')"
  "no_linebreak (py ''# Time generated: '')"
  "no_linebreak (py ''# Generation time: '')"
  "no_linebreak (py '' seconds'')"
  by (simp_all add: py_def is_linebreak_def)

lemma header_literals_hash:
  "py ''# Generated from prompt file: '' @ a = 35 # py '' Generated from prompt file: '' @ a"
  "py ''# Model used: '' @ a = 35 # py '' Model used: '' @ a"
  "py ''# Time generated: '' @ a = 35 # py '' Time generated: '' @ a"
  "py ''# Generation time: '' @ a = 35 # py '' Generation time: '' @ a"
  by (simp_all add: py_def)

lemma nonblank_hash: "nonblank (35 # l)"
  by (simp add: nonblank_def strip_nonspace_head is_space_def)

lemma splitlines_header:
  assumes "no_linebreak pf" "no_linebreak m" "no_linebreak (timestamp r)"
    "no_linebreak (generation_time_text r)"
  shows "splitlines (header pf m r @ body) =
    [py ''# Generated from prompt file: '' @ pf,
     py ''# Model used: '' @ m,
     py ''# Time generated: '' @ timestamp r,
     py ''# Generation time: '' @ generation_time_text r @ py '' seconds''] @ splitlines body"
proof -
  have "splitlines (header pf m r @ body) =
      splitlines ((py ''# Generated from prompt file: '' @ pf) @ nl @
        (py ''# Model used: '' @ m) @ nl @
        (py ''# Time generated: '' @ timestamp r) @ nl @
        (py ''# Generation time: '' @ generation_time_text r @ py '' seconds'') @ nl @ body)"
    by (simp add: header_def)
  also have "\<dots> = (py ''# Generated from prompt file: '' @ pf) #
      splitlines ((py ''# Model used: '' @ m) @ nl @
        (py ''# Time generated: '' @ timestamp r) @ nl @
        (py ''# Generation time: '' @ generation_time_text r @ py '' seconds'') @ nl @ body)"
    using assms by (intro splitlines_line_nl) (simp add: header_literals)
  also have "splitlines ((py ''# Model used: '' @ m) @ nl @
        (py ''# Time generated: '' @ timestamp r) @ nl @
        (py ''# Generation time: '' @ generation_time_text r @ py '' seconds'') @ nl @ body) =
      (py ''# Model used: '' @ m) #
      splitlines ((py ''# Time generated: '' @ timestamp r) @ nl @
        (py ''# Generation time: '' @ generation_time_text r @ py '' seconds'') @ nl @ body)"
    using assms by (intro splitlines_line_nl) (simp add: header_literals)
  also have "splitlines ((py ''# Time generated: '' @ timestamp r) @ nl @
        (py ''# Generation time: '' @ generation_time_text r @ py '' seconds'') @ nl @ body) =
      (py ''# Time generated: '' @ timestamp r) #
      splitlines ((py ''# Generation time: '' @ generation_time_text r @ py '' seconds'') @ nl @ body)"
    using assms by (intro splitlines_line_nl) (simp add: header_literals)
  also have "splitlines ((py ''# Generation time: '' @ generation_time_text r @ py '' seconds'') @ nl @ body) =
      (py ''# Generation time: '' @ generation_time_text r @ py '' seconds'') # splitlines body"
    using assms by (intro splitlines_line_nl) (simp add: header_literals)
  finally show ?thesis by simp
qed

lemma count_header:
  assumes "no_linebreak pf" "no_linebreak m" "no_linebreak (timestamp r)"
    "no_linebreak (generation_time_text r)"
  shows "length (filter nonblank (splitlines (header pf m r @ body))) =
    4 + length (filter nonblank (splitlines body))"
  unfolding splitlines_header [OF assms]
  by (simp add: header_literals_hash nonblank_hash del: append_assoc)

text \<open>The equations that evaluate the string operations on a given text.\<close>

lemmas str_eval = py_def nl_def hash_def backtick_def fence_open_def fence_close_def
  is_linebreak_def is_space_def splitlines_def strip_def startswith_def

lemmas sanitize_eval = sanitize_def extract_code_def comment_backticks_def code_start_idx_def
  comment_prefix_def comment_out_def comment_backtick_def fenced_region_def

section \<open>The sanitizer\<close>

text \<open>
  Claim C6. When no line of the response strips to the opening fence \<open>```python\<close>,
  \<open>generate_code\<close> returns (it is a total function, and no operation of it raises on
  a text): the body is the whole response, every line with a leading \<open>#\<close> (put there
  unless the line had one), joined by newlines; so every line of the body starts with
  \<open>#\<close>. The line count is then the number of lines of the response.
\<close>

theorem unfenced_response_commented:
  assumes "\<forall>l\<in>set (splitlines (content r)). strip l \<noteq> fence_open"
  shows "generate_code pf m r =
      (header pf m r @ join nl (map comment_out (splitlines (content r))),
       generation_time r, length (splitlines (content r))) \<and>
    splitlines (sanitize (content r)) = map comment_out (splitlines (content r)) \<and>
    (\<forall>l\<in>set (splitlines (sanitize (content r))). startswith l hash)"
proof -
  from assms have none: "code_start_idx (splitlines (content r)) = None"
    by (simp add: code_start_idx_None)
  then have body: "sanitize (content r) = join nl (map comment_out (splitlines (content r)))"
    by (rule sanitize_unfenced)
  then have lines: "splitlines (sanitize (content r)) = map comment_out (splitlines (content r))"
    by (simp add: splitlines_commented)
  have "filter nonblank (map comment_out xs) = map comment_out xs" for xs
    by (induction xs) (simp_all add: comment_out_nonblank)
  then have "count_loc (sanitize (content r)) = length (splitlines (content r))"
    by (simp add: count_loc_nonblank lines)
  with body have "generate_code pf m r =
      (header pf m r @ join nl (map comment_out (splitlines (content r))),
       generation_time r, length (splitlines (content r)))"
    by (simp add: generate_code_def)
  moreover have "\<forall>l\<in>set (splitlines (sanitize (content r))). startswith l hash"
    by (simp add: lines comment_out_hash)
  ultimately show ?thesis using lines by simp
qed

theorem unfenced_response_commented_witness:
  "list_all (\<lambda>l. strip l \<noteq> fence_open)
     (splitlines (py ''Here is code:'' @ nl @ py ''  print(1)'' @ nl @ py ''# done'')) \<and>
   generate_code (py ''prompt.txt'') (py ''m'')
     \<lparr>content = py ''Here is code:'' @ nl @ py ''  print(1)'' @ nl @ py ''# done'',
      generation_time = (2::int), generation_time_text = py ''2.000'', timestamp = py ''now''\<rparr> =
   (py ''# Generated from prompt file: prompt.txt'' @ nl @ py ''# Model used: m'' @ nl @
    py ''# Time generated: now'' @ nl @ py ''# Generation time: 2.000 seconds'' @ nl @
    py ''#Here is code:'' @ nl @ py ''#  print(1)'' @ nl @ py ''# done'', 2, 3)"
proof -
  let ?r = "\<lparr>content = py ''Here is code:'' @ nl @ py ''  print(1)'' @ nl @ py ''# done'',
      generation_time = (2::int), generation_time_text = py ''2.000'', timestamp = py ''now''\<rparr>"
  have l: "splitlines (content ?r) = [py ''Here is code:'', py ''  print(1)'', py ''# done'']"
    by (simp add: str_eval)
  have h: "\<forall>l\<in>set (splitlines (content ?r)). strip l \<noteq> fence_open"
    unfolding l by (simp add: str_eval)
  have a: "list_all (\<lambda>l. strip l \<noteq> fence_open) (splitlines (content ?r))"
    using h by (simp add: list_all_iff)
  have "generate_code (py ''prompt.txt'') (py ''m'') ?r =
      (header (py ''prompt.txt'') (py ''m'') ?r @ join nl (map comment_out (splitlines (content ?r))),
       generation_time ?r, length (splitlines (content ?r)))"
    using unfenced_response_commented [OF h] by blast
  also have "\<dots> = (py ''# Generated from prompt file: prompt.txt'' @ nl @ py ''# Model used: m'' @ nl @
    py ''# Time generated: now'' @ nl @ py ''# Generation time: 2.000 seconds'' @ nl @
    py ''#Here is code:'' @ nl @ py ''#  print(1)'' @ nl @ py ''# done'', 2, 3)"
    unfolding l by (simp add: str_eval header_def comment_out_def)
  finally show ?thesis using a by simp
qed

text \<open>
  Claim C10. The line found as the opening fence is the first line that strips to exactly
  \<open>```python\<close>; none is found exactly when no line strips to that text, whatever
  other fence lines the response has (a bare \<open>```\<close>, another language tag), and then
  the body is the whole response with every line commented out.
\<close>

theorem only_python_fence_opens:
  "(code_start_idx (splitlines c) = Some k \<longleftrightarrow>
      k < length (splitlines c) \<and> strip (splitlines c ! k) = fence_open \<and>
      (\<forall>j<k. strip (splitlines c ! j) \<noteq> fence_open)) \<and>
   (code_start_idx (splitlines c) = None \<longleftrightarrow>
      (\<forall>l\<in>set (splitlines c). strip l \<noteq> fence_open)) \<and>
   (code_start_idx (splitlines c) = None \<longrightarrow>
      sanitize c = join nl (map comment_out (splitlines c)) \<and>
      (\<forall>l\<in>set (splitlines (sanitize c)). startswith l hash))"
proof -
  have "\<forall>l\<in>set (splitlines (sanitize c)). startswith l hash"
    if "code_start_idx (splitlines c) = None"
    using sanitize_unfenced [OF that] by (simp add: splitlines_commented comment_out_hash)
  then show ?thesis
    using code_start_idx_Some [of "splitlines c" k] code_start_idx_None [of "splitlines c"]
      sanitize_unfenced [of c]
    by blast
qed

theorem only_python_fence_opens_witness:
  "code_start_idx (splitlines (py ''```'' @ nl @ py ''print(1)'' @ nl @ py ''```'')) = None \<and>
   code_start_idx (splitlines (py ''```py'' @ nl @ py ''print(1)'' @ nl @ py ''```'')) = None \<and>
   sanitize (py ''```'' @ nl @ py ''print(1)'' @ nl @ py ''```'') =
     py ''#```'' @ nl @ py ''#print(1)'' @ nl @ py ''#```'' \<and>
   list_all (\<lambda>l. startswith l hash)
     (splitlines (sanitize (py ''```'' @ nl @ py ''print(1)'' @ nl @ py ''```'')))"
proof -
  let ?c = "py ''```'' @ nl @ py ''print(1)'' @ nl @ py ''```''"
  have l: "splitlines ?c = [py ''```'', py ''print(1)'', py ''```'']"
    by (simp add: str_eval)
  have n: "code_start_idx (splitlines ?c) = None"
    unfolding l by (simp add: str_eval code_start_idx_def)
  have n': "code_start_idx (splitlines (py ''```py'' @ nl @ py ''print(1)'' @ nl @ py ''```'')) = None"
    by (simp add: str_eval code_start_idx_def)
  from only_python_fence_opens [of ?c 0] n
  have s: "sanitize ?c = join nl (map comment_out (splitlines ?c))"
    and h: "\<forall>l\<in>set (splitlines (sanitize ?c)). startswith l hash"
    by blast+
  have "join nl (map comment_out (splitlines ?c)) =
      py ''#```'' @ nl @ py ''#print(1)'' @ nl @ py ''#```''"
    unfolding l by (simp add: str_eval comment_out_def)
  with s have "sanitize ?c = py ''#```'' @ nl @ py ''#print(1)'' @ nl @ py ''#```''" by simp
  with n n' h show ?thesis by (simp add: list_all_iff)
qed

text \<open>
  Claim C8. In the body that the sanitizer returns, no line has a backtick as its first
  character that is not white space: the backtick pass puts a \<open>#\<close> before every
  such line of the extracted code and leaves the other lines as they are. This holds for
  the lines of the fenced region as well.
\<close>

theorem backtick_lines_commented:
  "splitlines (sanitize c) =
     map comment_backtick (drop_final_empty (splitlines (extract_code c))) \<and>
   (\<forall>l\<in>set (splitlines (sanitize c)). \<not> startswith (strip l) backtick) \<and>
   (\<forall>l\<in>set (splitlines (extract_code c)).
      startswith (strip l) backtick \<longrightarrow> hash @ l \<in> set (splitlines (sanitize c))) \<and>
   (\<forall>k. code_start_idx (splitlines c) = Some k \<longrightarrow>
      (\<forall>l\<in>set (fenced_region k (splitlines c)).
         startswith (strip l) backtick \<longrightarrow> hash @ l \<in> set (splitlines (sanitize c))))"
proof -
  have a: "\<forall>l\<in>set (splitlines (sanitize c)). \<not> startswith (strip l) backtick"
    by (auto simp: sanitize_lines comment_backtick_no_backtick)
  have b: "hash @ l \<in> set (splitlines (sanitize c))"
    if "l \<in> set (splitlines (extract_code c))" "startswith (strip l) backtick" for l
    unfolding sanitize_lines using that by (rule backtick_line_commented)
  have d: "hash @ l \<in> set (splitlines (sanitize c))"
    if k: "code_start_idx (splitlines c) = Some k"
      and l: "l \<in> set (fenced_region k (splitlines c))" "startswith (strip l) backtick" for k l
  proof -
    have "splitlines (extract_code c) = drop_final_empty (fenced_region k (splitlines c))"
      unfolding extract_code_fenced [OF k]
      by (rule splitlines_join) (simp add: fenced_region_no_linebreak)
    moreover from l have "l \<in> set (drop_final_empty (fenced_region k (splitlines c)))"
      by (intro in_drop_final_empty leading_backtick_nonempty)
    ultimately show ?thesis using l(2) by (intro b) simp_all
  qed
  from a b d show ?thesis by (simp add: sanitize_lines)
qed

theorem backtick_lines_commented_witness:
  "code_start_idx (splitlines (py ''```python'' @ nl @ py ''x = 1'' @ nl @ py ''  `oops`'' @ nl @
     py ''```'')) = Some 0 \<and>
   fenced_region 0 (splitlines (py ''```python'' @ nl @ py ''x = 1'' @ nl @ py ''  `oops`'' @ nl @
     py ''```'')) = [py ''x = 1'', py ''  `oops`''] \<and>
   splitlines (sanitize (py ''```python'' @ nl @ py ''x = 1'' @ nl @ py ''  `oops`'' @ nl @
     py ''```'')) = [py ''x = 1'', py ''#  `oops`'']"
proof -
  let ?c = "py ''```python'' @ nl @ py ''x = 1'' @ nl @ py ''  `oops`'' @ nl @ py ''```''"
  have l: "splitlines ?c = [py ''```python'', py ''x = 1'', py ''  `oops`'', py ''```'']"
    by (simp add: str_eval)
  have k: "code_start_idx (splitlines ?c) = Some 0"
    unfolding l by (simp add: str_eval code_start_idx_def)
  have f: "fenced_region 0 (splitlines ?c) = [py ''x = 1'', py ''  `oops`'']"
    unfolding l by (simp add: str_eval fenced_region_def)
  have e: "splitlines (extract_code ?c) = [py ''x = 1'', py ''  `oops`'']"
    by (simp add: str_eval sanitize_eval)
  have "splitlines (sanitize ?c) =
      map comment_backtick (drop_final_empty (splitlines (extract_code ?c)))"
    using backtick_lines_commented [of ?c] by blast
  also have "\<dots> = [py ''x = 1'', py ''#  `oops`'']"
    unfolding e by (simp add: str_eval comment_backtick_def drop_final_empty_def)
  finally show ?thesis using k f by simp
qed

text \<open>
  Claim C3, as amended. When a line strips to the opening fence, the first such at index
  \<open>k\<close>, the extraction step yields the lines strictly between it and the first
  later line that strips to the closing fence (or the end of the input), joined by
  newlines. The body that the sanitizer returns is made of these lines, each one whose
  first character that is not white space is a backtick with a \<open>#\<close> before it,
  and without the last of them when that one is empty. The lines up to the opener are
  commented out in the working list only; neither they nor the lines from the closing
  fence on are part of the body.
\<close>

theorem fenced_body:
  assumes "code_start_idx (splitlines c) = Some k"
  shows "extract_code c = join nl (fenced_region k (splitlines c)) \<and>
    sanitize c =
      join nl (map comment_backtick (drop_final_empty (fenced_region k (splitlines c)))) \<and>
    list_all (\<lambda>l. startswith l hash) (take (Suc k) (comment_prefix (Suc k) (splitlines c)))"
proof -
  from assms have "k < length (splitlines c)"
    by (simp add: code_start_idx_Some)
  then have "take (Suc k) (comment_prefix (Suc k) (splitlines c)) =
      map comment_out (take (Suc k) (splitlines c))"
    by (simp add: comment_prefix_def min_def)
  then have "list_all (\<lambda>l. startswith l hash)
      (take (Suc k) (comment_prefix (Suc k) (splitlines c)))"
    by (simp add: list_all_iff comment_out_hash)
  with assms show ?thesis by (simp add: extract_code_fenced sanitize_fenced)
qed

theorem fenced_body_witness:
  "code_start_idx (splitlines (py ''Sure:'' @ nl @ py ''```python'' @ nl @ py ''print(1)'' @ nl @
     py ''```'' @ nl @ py ''Bye'')) = Some 1 \<and>
   sanitize (py ''Sure:'' @ nl @ py ''```python'' @ nl @ py ''print(1)'' @ nl @
     py ''```'' @ nl @ py ''Bye'') = py ''print(1)''"
proof -
  let ?c = "py ''Sure:'' @ nl @ py ''```python'' @ nl @ py ''print(1)'' @ nl @
     py ''```'' @ nl @ py ''Bye''"
  have l: "splitlines ?c = [py ''Sure:'', py ''```python'', py ''print(1)'', py ''```'', py ''Bye'']"
    by (simp add: str_eval)
  have k: "code_start_idx (splitlines ?c) = Some 1"
    unfolding l by (simp add: str_eval code_start_idx_def)
  have "sanitize ?c =
      join nl (map comment_backtick (drop_final_empty (fenced_region 1 (splitlines ?c))))"
    using fenced_body [OF k] by simp
  also have "\<dots> = py ''print(1)''"
    unfolding l by (simp add: str_eval fenced_region_def drop_final_empty_def comment_backtick_def)
  finally show ?thesis using k by simp
qed

text \<open>
  Claim C3 as it was stated, the body being exactly the lines of the fenced region, fails
  on a response whose region holds a line that starts with a backtick and ends in an
  empty line.
\<close>

theorem fenced_body_counterexample:
  "code_start_idx (splitlines (py ''intro'' @ nl @ py ''```python'' @ nl @ py ''`x`'' @ nl @ nl @
     py ''```'' @ nl @ py ''bye'')) = Some 1 \<and>
   fenced_region 1 (splitlines (py ''intro'' @ nl @ py ''```python'' @ nl @ py ''`x`'' @ nl @ nl @
     py ''```'' @ nl @ py ''bye'')) = [py ''`x`'', []] \<and>
   sanitize (py ''intro'' @ nl @ py ''```python'' @ nl @ py ''`x`'' @ nl @ nl @
     py ''```'' @ nl @ py ''bye'') = py ''#`x`'' \<and>
   splitlines (sanitize (py ''intro'' @ nl @ py ''```python'' @ nl @ py ''`x`'' @ nl @ nl @
     py ''```'' @ nl @ py ''bye'')) \<noteq>
     fenced_region 1 (splitlines (py ''intro'' @ nl @ py ''```python'' @ nl @ py ''`x`'' @ nl @ nl @
     py ''```'' @ nl @ py ''bye'')) \<and>
   sanitize (py ''intro'' @ nl @ py ''```python'' @ nl @ py ''`x`'' @ nl @ nl @
     py ''```'' @ nl @ py ''bye'') \<noteq>
     join nl (fenced_region 1 (splitlines (py ''intro'' @ nl @ py ''```python'' @ nl @ py ''`x`'' @
       nl @ nl @ py ''```'' @ nl @ py ''bye'')))"
proof -
  let ?c = "py ''intro'' @ nl @ py ''```python'' @ nl @ py ''`x`'' @ nl @ nl @
     py ''```'' @ nl @ py ''bye''"
  have l: "splitlines ?c = [py ''intro'', py ''```python'', py ''`x`'', [], py ''```'', py ''bye'']"
    by (simp add: str_eval)
  have k: "code_start_idx (splitlines ?c) = Some 1"
    unfolding l by (simp add: str_eval code_start_idx_def)
  have f: "fenced_region 1 (splitlines ?c) = [py ''`x`'', []]"
    unfolding l by (simp add: str_eval fenced_region_def)
  have s: "sanitize ?c = py ''#`x`''"
    by (simp add: str_eval sanitize_eval)
  have s': "splitlines (sanitize ?c) = [py ''#`x`'']"
    unfolding s by (simp add: str_eval)
  show ?thesis
    unfolding s' f unfolding s k by (simp add: str_eval)
qed

text \<open>
  Claim C7. The line count that \<open>generate_code\<close> returns is the number of lines of
  the body, as it is after the backtick pass, that do not strip to the empty text. The
  header is not counted: when the texts put into it have no line boundary, it makes four
  lines, none of them blank, and the candidate has that many more lines which are not blank.
\<close>

theorem loc_counts_nonblank_body_lines:
  "generate_code pf m r =
     (header pf m r @ sanitize (content r), generation_time r,
      length (filter nonblank (splitlines (sanitize (content r))))) \<and>
   length (filter nonblank (splitlines (sanitize (content r)))) =
     length (filter nonblank (map comment_backtick (splitlines (extract_code (content r))))) \<and>
   (no_linebreak pf \<and> no_linebreak m \<and> no_linebreak (timestamp r) \<and>
    no_linebreak (generation_time_text r) \<longrightarrow>
      length (filter nonblank (splitlines (fst (generate_code pf m r)))) =
        4 + snd (snd (generate_code pf m r)))"
proof -
  have g: "generate_code pf m r =
     (header pf m r @ sanitize (content r), generation_time r,
      length (filter nonblank (splitlines (sanitize (content r)))))"
    by (simp add: generate_code_def count_loc_nonblank Let_def)
  have "filter nonblank (map comment_backtick xs) = map comment_backtick (filter nonblank xs)"
    for xs by (induction xs) (simp_all add: comment_backtick_nonblank)
  then have n: "length (filter nonblank (splitlines (sanitize (content r)))) =
     length (filter nonblank (map comment_backtick (splitlines (extract_code (content r)))))"
    using count_loc_sanitize [of "content r"] by (simp add: count_loc_nonblank)
  have "length (filter nonblank (splitlines (fst (generate_code pf m r)))) =
        4 + snd (snd (generate_code pf m r))"
    if "no_linebreak pf" "no_linebreak m" "no_linebreak (timestamp r)"
      "no_linebreak (generation_time_text r)"
    unfolding g using count_header [OF that] by simp
  with g n show ?thesis by blast
qed

theorem loc_counts_nonblank_body_lines_witness:
  "no_linebreak (py ''prompt.txt'') \<and> no_linebreak (py ''m'') \<and> no_linebreak (py ''now'') \<and>
   no_linebreak (py ''1.500'') \<and>
   sanitize (py ''```python'' @ nl @ py ''print(1)'' @ nl @ nl @ py ''  `y`'' @ nl @ py ''```'') =
     py ''print(1)'' @ nl @ nl @ py ''#  `y`'' \<and>
   generate_code (py ''prompt.txt'') (py ''m'')
     \<lparr>content = py ''```python'' @ nl @ py ''print(1)'' @ nl @ nl @ py ''  `y`'' @ nl @ py ''```'',
      generation_time = (3::int), generation_time_text = py ''1.500'', timestamp = py ''now''\<rparr> =
   (header (py ''prompt.txt'') (py ''m'')
     \<lparr>content = py ''```python'' @ nl @ py ''print(1)'' @ nl @ nl @ py ''  `y`'' @ nl @ py ''```'',
      generation_time = (3::int), generation_time_text = py ''1.500'', timestamp = py ''now''\<rparr> @
    py ''print(1)'' @ nl @ nl @ py ''#  `y`'', 3, 2) \<and>
   length (filter nonblank (splitlines (fst (generate_code (py ''prompt.txt'') (py ''m'')
     \<lparr>content = py ''```python'' @ nl @ py ''print(1)'' @ nl @ nl @ py ''  `y`'' @ nl @ py ''```'',
      generation_time = (3::int), generation_time_text = py ''1.500'',
      timestamp = py ''now''\<rparr>)))) = 6"
proof -
  let ?c = "py ''```python'' @ nl @ py ''print(1)'' @ nl @ nl @ py ''  `y`'' @ nl @ py ''```''"
  let ?r = "\<lparr>content = ?c, generation_time = (3::int), generation_time_text = py ''1.500'',
      timestamp = py ''now''\<rparr>"
  have nb: "no_linebreak (py ''prompt.txt'')" "no_linebreak (py ''m'')"
    "no_linebreak (timestamp ?r)" "no_linebreak (generation_time_text ?r)"
    by (simp_all add: str_eval)
  have s: "sanitize ?c = py ''print(1)'' @ nl @ nl @ py ''#  `y`''"
    by (simp add: str_eval sanitize_eval)
  have n: "length (filter nonblank (splitlines (py ''print(1)'' @ nl @ nl @ py ''#  `y`''))) = 2"
    by (simp add: str_eval nonblank_def)
  note t = loc_counts_nonblank_body_lines [of "py ''prompt.txt''" "py ''m''" ?r]
  from t have g: "generate_code (py ''prompt.txt'') (py ''m'') ?r =
      (header (py ''prompt.txt'') (py ''m'') ?r @ sanitize ?c, 3,
       length (filter nonblank (splitlines (sanitize ?c))))"
    by simp
  from t nb have "length (filter nonblank (splitlines (fst (generate_code (py ''prompt.txt'')
      (py ''m'') ?r)))) = 4 + snd (snd (generate_code (py ''prompt.txt'') (py ''m'') ?r))"
    by blast
  with g have "length (filter nonblank (splitlines (fst (generate_code (py ''prompt.txt'')
      (py ''m'') ?r)))) = 4 + length (filter nonblank (splitlines (sanitize ?c)))"
    by simp
  with g nb s n show ?thesis by simp
qed

section \<open>File names\<close>

lemma str_nat_nonempty: "str_nat n \<noteq> []"
  by (subst str_nat.simps) simp

lemma hd_str_nat: "48 \<le> hd (str_nat n) \<and> hd (str_nat n) \<le> 57"
proof (induction n rule: str_nat.induct)
  case (1 n)
  show ?case
  proof (cases "n < 10")
    case True
    then show ?thesis by (subst (1 2) str_nat.simps) (simp add: digit_char_def)
  next
    case False
    with 1 str_nat_nonempty [of "n div 10"] show ?thesis
      by (subst (1 2) str_nat.simps) simp
  qed
qed

lemma str_nat_value: "foldl (\<lambda>a c. 10 * a + (c - 48)) 0 (str_nat n) = n"
proof (induction n rule: str_nat.induct)
  case (1 n)
  show ?case
  proof (cases "n < 10")
    case True
    then show ?thesis by (subst str_nat.simps) (simp add: digit_char_def)
  next
    case False
    with 1 show ?thesis
      by (subst str_nat.simps) (simp add: digit_char_def)
  qed
qed

lemma str_nat_inj:
  assumes "str_nat m = str_nat n"
  shows "m = n"
proof -
  have "m = foldl (\<lambda>a c. 10 * a + (c - 48)) 0 (str_nat m)"
    by (simp only: str_nat_value)
  also have "\<dots> = foldl (\<lambda>a c. 10 * a + (c - 48)) 0 (str_nat n)"
    by (simp only: assms)
  also have "\<dots> = n"
    by (rule str_nat_value)
  finally show ?thesis .
qed

lemma hd_str_int: "str_int i \<noteq> [] \<and> hd (str_int i) \<noteq> 46"
  using hd_str_nat [of "nat i"] str_nat_nonempty [of "nat i"]
  by (auto simp: str_int_def)

lemma str_int_inj: "str_int i = str_int j \<Longrightarrow> i = j"
proof -
  assume e: "str_int i = str_int j"
  have neg: "str_int a \<noteq> str_int b" if "a < 0" "\<not> b < 0" for a b
  proof
    assume "str_int a = str_int b"
    with that have "45 # str_nat (nat (- a)) = str_nat (nat b)"
      by (simp add: str_int_def)
    then have "hd (45 # str_nat (nat (- a))) = hd (str_nat (nat b))"
      by (simp only:)
    then have "45 = hd (str_nat (nat b))" by simp
    with hd_str_nat [of "nat b"] show False by simp
  qed
  show ?thesis
  proof (cases "i < 0"; cases "j < 0")
    assume "i < 0" "j < 0"
    with e have "nat (- i) = nat (- j)" by (auto simp: str_int_def dest: str_nat_inj)
    with \<open>i < 0\<close> \<open>j < 0\<close> show ?thesis by simp
  next
    assume "\<not> i < 0" "\<not> j < 0"
    with e have "nat i = nat j" by (auto simp: str_int_def dest: str_nat_inj)
    with \<open>\<not> i < 0\<close> \<open>\<not> j < 0\<close> show ?thesis by simp
  next
    assume "i < 0" "\<not> j < 0"
    with neg e show ?thesis by blast
  next
    assume "\<not> i < 0" "j < 0"
    with neg [of j i] e show ?thesis by auto
  qed
qed

lemma archive_filename_inj:
  "archive_filename cfg j = archive_filename cfg k \<Longrightarrow> j = k"
  using str_int_inj [of "j - 1" "k - 1"] by (simp add: archive_filename_def)

lemma archive_filename_not_temp: "archive_filename cfg k \<noteq> temp_runtime_error"
proof
  assume "archive_filename cfg k = temp_runtime_error"
  then have "last (archive_filename cfg k) = last temp_runtime_error" by simp
  then show False
    by (simp add: archive_filename_def temp_runtime_error_def py_def)
qed

lemma rfind_nth:
  assumes "c \<in> set p"
  shows "0 \<le> rfind p c \<and> nat (rfind p c) < length p \<and> p ! nat (rfind p c) = c"
proof -
  define t where "t = takeWhile (\<lambda>x. x \<noteq> c) (rev p)"
  define d where "d = dropWhile (\<lambda>x. x \<noteq> c) (rev p)"
  from assms have "d \<noteq> []" by (simp add: d_def)
  moreover from this have "hd d = c"
    using hd_dropWhile [of "\<lambda>x. x \<noteq> c" "rev p"] by (simp add: d_def)
  ultimately obtain rest where d: "d = c # rest" by (cases d) auto
  have "rev p = t @ d" by (simp add: t_def d_def)
  then have "rev (rev p) = rev (t @ c # rest)" by (simp only: d)
  then have p: "p = rev rest @ c # rev t" by simp
  then have len: "length p = length rest + 1 + length t" by simp
  with assms have r: "rfind p c = int (length rest)"
    by (simp add: rfind_def t_def [symmetric])
  have "p ! length rest = c"
    by (subst p) (simp add: nth_append)
  with len r show ?thesis by simp
qed

lemma splitext_contract:
  "splitext p = (r, e) \<Longrightarrow> p = r @ e \<and> (e = [] \<or> hd e = 46)"
proof -
  assume s: "splitext p = (r, e)"
  show ?thesis
  proof (cases "e = []")
    case True
    with s show ?thesis by (auto simp: splitext_def Let_def split: if_splits)
  next
    case False
    with s have re: "r = take (nat (rfind p 46)) p" "e = drop (nat (rfind p 46)) p"
      and gt: "rfind p 47 < rfind p 46"
      by (auto simp: splitext_def Let_def split: if_splits)
    have "46 \<in> set p"
    proof (rule ccontr)
      assume "46 \<notin> set p"
      then have "rfind p 46 = - 1" by (simp add: rfind_def)
      moreover have "- 1 \<le> rfind p 47"
        using rfind_nth [of 47 p] by (cases "47 \<in> set p") (simp_all add: rfind_def)
      ultimately show False using gt by simp
    qed
    from rfind_nth [OF this] have "hd e = 46"
      unfolding re by (simp add: hd_drop_conv_nth)
    with re show ?thesis by simp
  qed
qed

lemma archive_filename_not_source: "archive_filename cfg k \<noteq> source_file cfg"
proof
  assume a: "archive_filename cfg k = source_file cfg"
  obtain r e where s: "splitext (source_file cfg) = (r, e)" by (cases "splitext (source_file cfg)")
  from splitext_contract [OF s] have p: "source_file cfg = r @ e" and e: "e = [] \<or> hd e = 46"
    by simp_all
  from s have "base_name cfg = r" by (simp add: base_name_def)
  with a p have "str_int (k - 1) @ py ''.py'' = e" by (simp add: archive_filename_def)
  with e hd_str_int [of "k - 1"] show False by (auto simp: py_def)
qed

section \<open>The runner\<close>

lemma test_code_Inl:
  "test_code cfg run c filename attempt fs = Inl e \<longleftrightarrow>
     attempt > 1 \<and> copyfile filename (archive_filename cfg attempt) fs = Inl e"
  by (auto simp: test_code_def Let_def split: sum.splits prod.splits if_splits)

lemma test_code_result:
  assumes "test_code cfg run c filename attempt fs = Inr ((success, output, error), fs')"
  shows "(success, output, error) =
    (case run [interpreter cfg, filename] (Some (script_seen cfg filename c)) (py ''5'' @ nl) of
       (returncode, out, err) \<Rightarrow> (returncode = 0, out, err))"
  using assms
  by (auto simp: test_code_def Let_def script_seen_def split: sum.splits prod.splits if_splits)

lemma test_code_files:
  assumes "test_code cfg run c filename attempt fs = Inr (res, fs')"
  shows "print_runtime_error_messages cfg \<or> filename \<noteq> temp_runtime_error \<Longrightarrow>
      fs' filename = Some c"
    and "\<not> print_runtime_error_messages cfg \<Longrightarrow> fs' temp_runtime_error = None"
    and "p \<noteq> filename \<Longrightarrow> p \<noteq> temp_runtime_error \<Longrightarrow>
      fs' p = (if attempt > 1 \<and> p = archive_filename cfg attempt then fs filename else fs p)"
  using assms
  by (auto simp: test_code_def Let_def copyfile_def
      split: sum.splits prod.splits if_splits option.splits)

lemma test_code_flag:
  assumes "filename \<noteq> temp_runtime_error"
  shows "map_sum id fst
      (test_code (cfg\<lparr>print_runtime_error_messages := True\<rparr>) run c filename attempt fs) =
    map_sum id fst
      (test_code (cfg\<lparr>print_runtime_error_messages := False\<rparr>) run c filename attempt fs)"
  using assms
  by (auto simp: test_code_def Let_def copyfile_def archive_filename_def base_name_def
      split: sum.splits prod.splits if_splits option.splits)

text \<open>
  What a call of the runner does to the file store, when the source file is not the file
  for the standard error (or the standard error comes through the pipe). The first
  attempt writes the source file only; a later attempt copies the source file, as it
  was, to the archive of its index first; and no call changes the archive of another
  index.
\<close>

lemma test_code_archives:
  assumes "print_runtime_error_messages cfg \<or> source_file cfg \<noteq> temp_runtime_error"
  shows
  "(attempt \<le> 1 \<longrightarrow>
      (\<exists>res fs'. test_code cfg run c (source_file cfg) attempt fs = Inr (res, fs') \<and>
         fs' (source_file cfg) = Some c \<and>
         (\<forall>p. p \<noteq> source_file cfg \<and> p \<noteq> temp_runtime_error \<longrightarrow> fs' p = fs p))) \<and>
   (1 < attempt \<and> fs (source_file cfg) = Some old \<longrightarrow>
      (\<exists>res fs'. test_code cfg run c (source_file cfg) attempt fs = Inr (res, fs') \<and>
         fs' (archive_filename cfg attempt) = Some old \<and>
         fs' (source_file cfg) = Some c \<and>
         (\<forall>p. p \<noteq> archive_filename cfg attempt \<and> p \<noteq> source_file cfg \<and>
              p \<noteq> temp_runtime_error \<longrightarrow> fs' p = fs p))) \<and>
   (\<forall>j res fs'. j \<noteq> attempt \<and>
      test_code cfg run c (source_file cfg) attempt fs = Inr (res, fs') \<longrightarrow>
      fs' (archive_filename cfg j) = fs (archive_filename cfg j))"
proof -
  have ex: "\<exists>res fs'. test_code cfg run c (source_file cfg) attempt fs = Inr (res, fs')"
    if "attempt \<le> 1 \<or> fs (source_file cfg) \<noteq> None"
  proof (cases "test_code cfg run c (source_file cfg) attempt fs")
    case (Inl e)
    with that archive_filename_not_source [of cfg attempt] show ?thesis
      by (auto simp: test_code_Inl copyfile_def split: option.splits if_splits)
  next
    case (Inr r)
    then show ?thesis by (cases r) auto
  qed
  have first: "\<exists>res fs'. test_code cfg run c (source_file cfg) attempt fs = Inr (res, fs') \<and>
         fs' (source_file cfg) = Some c \<and>
         (\<forall>p. p \<noteq> source_file cfg \<and> p \<noteq> temp_runtime_error \<longrightarrow> fs' p = fs p)"
    if "attempt \<le> 1"
  proof -
    from ex that obtain res fs'
      where t: "test_code cfg run c (source_file cfg) attempt fs = Inr (res, fs')" by blast
    from test_code_files(3) [OF t] that
    have "\<forall>p. p \<noteq> source_file cfg \<and> p \<noteq> temp_runtime_error \<longrightarrow> fs' p = fs p"
      by simp
    with test_code_files(1) [OF t assms] t show ?thesis by blast
  qed
  have later: "\<exists>res fs'. test_code cfg run c (source_file cfg) attempt fs = Inr (res, fs') \<and>
         fs' (archive_filename cfg attempt) = Some old \<and>
         fs' (source_file cfg) = Some c \<and>
         (\<forall>p. p \<noteq> archive_filename cfg attempt \<and> p \<noteq> source_file cfg \<and>
              p \<noteq> temp_runtime_error \<longrightarrow> fs' p = fs p)"
    if "1 < attempt" "fs (source_file cfg) = Some old"
  proof -
    from ex that obtain res fs'
      where t: "test_code cfg run c (source_file cfg) attempt fs = Inr (res, fs')" by auto
    from test_code_files(3) [OF t archive_filename_not_source archive_filename_not_temp] that
    have "fs' (archive_filename cfg attempt) = Some old" by simp
    moreover from test_code_files(3) [OF t]
    have "\<forall>p. p \<noteq> archive_filename cfg attempt \<and> p \<noteq> source_file cfg \<and>
              p \<noteq> temp_runtime_error \<longrightarrow> fs' p = fs p"
      by simp
    ultimately show ?thesis using test_code_files(1) [OF t assms] t by blast
  qed
  have keep: "fs' (archive_filename cfg j) = fs (archive_filename cfg j)"
    if "j \<noteq> attempt" "test_code cfg run c (source_file cfg) attempt fs = Inr (res, fs')"
    for j res fs'
    using test_code_files(3) [OF that(2) archive_filename_not_source archive_filename_not_temp,
        of j] that(1) archive_filename_inj [of cfg j attempt]
    by auto
  from first later keep show ?thesis by blast
qed

section \<open>The loop\<close>


lemma after_run_fields [simp]:
  "code (after_run s fs') = code s"
  "total_gen_time (after_run s fs') = total_gen_time s"
  "attempts (after_run s fs') = attempts s"
  "files (after_run s fs') = fs'"
  "n_gen (after_run s fs') = n_gen s"
  "n_exec (after_run s fs') = n_exec s + 1"
  "totals (after_run s fs') = totals s"
  by (simp_all add: after_run_def)

lemma after_repair_fields [simp]:
  "attempts (after_repair cfg gen s e) = attempts s + 1"
  "files (after_repair cfg gen s e) = files s"
  "n_gen (after_repair cfg gen s e) = n_gen s + 1"
  "n_exec (after_repair cfg gen s e) = n_exec s"
  "totals (after_repair cfg gen s e) = totals s @ [total_gen_time (after_repair cfg gen s e)]"
  by (simp_all add: after_repair_def Let_def)

lemma time_invariant_after_run [simp]:
  "time_invariant cfg (after_run s fs') = time_invariant cfg s"
  by (simp add: time_invariant_def)










lemma initial_state_fields:
  "attempts (initial_state cfg gen ptext fs) = 1"
  "files (initial_state cfg gen ptext fs) = fs"
  "n_gen (initial_state cfg gen ptext fs) = 1"
  "n_exec (initial_state cfg gen ptext fs) = 0"
  by (simp_all add: initial_state_def Let_def split: prod.splits)

text \<open>The equations that evaluate a run on given collaborators.\<close>

lemmas run_eval = main_def initial_state_def loop_body_def test_code_def copyfile_def
  generate_code_def count_loc_def header_def archive_filename_def base_name_def splitext_def
  rfind_def str_int_def digit_char_def temp_runtime_error_def repair_prompt_def
  initial_prompt_def Let_def

lemmas demo_eval = demo_config_def demo_gen_def always_fails_def always_ok_def empty_only_def
  no_files_def tight_config_def clash_config_def demo_candidate_def




text \<open>
  Claim C5. The runner reports success exactly when the exit status of the interpreter is
  0. The loop then breaks with \<open>Succeeded\<close>: no generation call and no run follows. When
  the run of the first candidate exits with 0, the whole run has made one generation call
  and one run of the interpreter, and has written no file but the source file (the file
  for the standard error apart): no archive.
\<close>

theorem success_is_exit_status_zero:
  fixes cfg :: "('t::{plus,linorder}) config"
  shows
  "(test_code cfg run c filename attempt fs0 = Inr ((success, out1, err1), fs1) \<longrightarrow>
      success =
        (fst (run [interpreter cfg, filename] (Some (script_seen cfg filename c)) (py ''5'' @ nl))
          = 0)) \<and>
   (test_code cfg (exec (n_exec s)) (code s) (source_file cfg) (attempts s) (files s)
        = Inr ((True, out2, err2), fs2) \<longrightarrow>
      refine_loop cfg gen exec s = (Succeeded, s\<lparr>files := fs2, n_exec := n_exec s + 1\<rparr>)) \<and>
   (fst (exec 0 [interpreter cfg, source_file cfg]
         (Some (script_seen cfg (source_file cfg) (code (initial_state cfg gen ptext fs))))
         (py ''5'' @ nl)) = 0 \<longrightarrow>
      fst (main cfg gen exec ptext fs) = Succeeded \<and>
      n_gen (snd (main cfg gen exec ptext fs)) = 1 \<and>
      n_exec (snd (main cfg gen exec ptext fs)) = 1 \<and>
      (\<forall>p. p \<noteq> source_file cfg \<and> p \<noteq> temp_runtime_error \<longrightarrow>
         files (snd (main cfg gen exec ptext fs)) p = fs p) \<and>
      (\<forall>k. files (snd (main cfg gen exec ptext fs)) (archive_filename cfg k) =
         fs (archive_filename cfg k)))"
proof -
  have a: "success =
      (fst (run [interpreter cfg, filename] (Some (script_seen cfg filename c)) (py ''5'' @ nl)) = 0)"
    if "test_code cfg run c filename attempt fs0 = Inr ((success, out1, err1), fs1)"
    using test_code_result [OF that] by (auto split: prod.splits)
  have b: "refine_loop cfg gen exec s = (Succeeded, s\<lparr>files := fs2, n_exec := n_exec s + 1\<rparr>)"
    if "test_code cfg (exec (n_exec s)) (code s) (source_file cfg) (attempts s) (files s)
        = Inr ((True, out2, err2), fs2)" for s fs2 out2 err2
    using that by (simp add: refine_loop.simps [of cfg gen exec s] loop_body_def)
  let ?s0 = "initial_state cfg gen ptext fs"
  have d: "fst (main cfg gen exec ptext fs) = Succeeded \<and>
      n_gen (snd (main cfg gen exec ptext fs)) = 1 \<and>
      n_exec (snd (main cfg gen exec ptext fs)) = 1 \<and>
      (\<forall>p. p \<noteq> source_file cfg \<and> p \<noteq> temp_runtime_error \<longrightarrow>
         files (snd (main cfg gen exec ptext fs)) p = fs p) \<and>
      (\<forall>k. files (snd (main cfg gen exec ptext fs)) (archive_filename cfg k) =
         fs (archive_filename cfg k))"
    if z: "fst (exec 0 [interpreter cfg, source_file cfg]
         (Some (script_seen cfg (source_file cfg) (code ?s0))) (py ''5'' @ nl)) = 0"
  proof -
    have "\<not> (\<exists>e. test_code cfg (exec 0) (code ?s0) (source_file cfg) 1 fs = Inl e)"
      by (simp add: test_code_Inl)
    then obtain ok outp err fs' where
      t: "test_code cfg (exec 0) (code ?s0) (source_file cfg) 1 fs = Inr ((ok, outp, err), fs')"
      by (cases "test_code cfg (exec 0) (code ?s0) (source_file cfg) 1 fs") auto
    from test_code_result [OF t] z have "ok" by (auto split: prod.splits)
    with t have "test_code cfg (exec (n_exec ?s0)) (code ?s0) (source_file cfg) (attempts ?s0)
        (files ?s0) = Inr ((True, outp, err), fs')"
      by (simp add: initial_state_fields)
    from b [OF this] have m: "main cfg gen exec ptext fs =
        (Succeeded, ?s0\<lparr>files := fs', n_exec := n_exec ?s0 + 1\<rparr>)"
      by (simp add: main_def)
    have keep: "fs' p = fs p" if "p \<noteq> source_file cfg" "p \<noteq> temp_runtime_error" for p
      using test_code_files(3) [OF t that] by simp
    then have "fs' (archive_filename cfg k) = fs (archive_filename cfg k)" for k
      by (simp add: archive_filename_not_source archive_filename_not_temp)
    with keep show ?thesis
      unfolding m by (simp add: initial_state_fields)
  qed
  from a b d show ?thesis by blast
qed

theorem success_is_exit_status_zero_witness:
  "fst (always_ok 0 [interpreter demo_config, source_file demo_config]
     (Some (script_seen demo_config (source_file demo_config)
        (code (initial_state demo_config demo_gen (py ''Write f.'') no_files))))
     (py ''5'' @ nl)) = 0 \<and>
   fst (main demo_config demo_gen always_ok (py ''Write f.'') no_files) = Succeeded \<and>
   n_gen (snd (main demo_config demo_gen always_ok (py ''Write f.'') no_files)) = 1 \<and>
   n_exec (snd (main demo_config demo_gen always_ok (py ''Write f.'') no_files)) = 1 \<and>
   files (snd (main demo_config demo_gen always_ok (py ''Write f.'') no_files))
     (archive_filename demo_config 2) = None"
proof -
  have z: "fst (always_ok 0 [interpreter demo_config, source_file demo_config]
     (Some (script_seen demo_config (source_file demo_config)
        (code (initial_state demo_config demo_gen (py ''Write f.'') no_files))))
     (py ''5'' @ nl)) = 0"
    by (simp add: always_ok_def)
  note t = success_is_exit_status_zero
    [of demo_config _ _ _ _ _ _ _ _ _ always_ok _ _ _ _ demo_gen "py ''Write f.''" no_files]
  from t z have "fst (main demo_config demo_gen always_ok (py ''Write f.'') no_files) = Succeeded"
    and "n_gen (snd (main demo_config demo_gen always_ok (py ''Write f.'') no_files)) = 1"
    and "n_exec (snd (main demo_config demo_gen always_ok (py ''Write f.'') no_files)) = 1"
    and "files (snd (main demo_config demo_gen always_ok (py ''Write f.'') no_files))
      (archive_filename demo_config 2) = no_files (archive_filename demo_config 2)"
    by blast+
  with z show ?thesis by (simp add: no_files_def)
qed

text \<open>
  Claim C2, at its scenario: three attempts, a budget of 1000 seconds that is never
  reached, every run of a candidate failing. The loop ends with \<open>FailedMaxAttempts\<close>
  after three runs of the interpreter, and after four generation calls: the fourth
  candidate is generated before \<open>attempts\<close> is compared with \<open>max_attempts\<close>, and is
  neither written nor run.
\<close>

theorem max_attempts_run_generates_once_more:
  "max_attempts demo_config = 3 \<and> max_time demo_config = 1000 \<and>
   fst (main demo_config demo_gen always_fails (py ''Write f.'') no_files) = FailedMaxAttempts \<and>
   n_gen (snd (main demo_config demo_gen always_fails (py ''Write f.'') no_files)) = 4 \<and>
   n_exec (snd (main demo_config demo_gen always_fails (py ''Write f.'') no_files)) = 3 \<and>
   totals (snd (main demo_config demo_gen always_fails (py ''Write f.'') no_files)) = [1, 2, 3, 4]"
  by (simp add: run_eval str_eval sanitize_eval demo_eval refine_loop.simps str_nat.simps)

text \<open>
  Claim C4, where the code departs from it. After the run of the scenario of claim C2 the
  source file holds the third candidate, and the archives the first and the second, while
  the candidate produced last is the fourth: it was never written. And with a source file
  named \<open>temp_runtime_error.txt\<close> and the standard error sent to that file, the runner
  empties the source file before the run and removes it after: the next attempt finds no
  file to archive.
\<close>

theorem artifact_is_not_last_candidate:
  "fst (main demo_config demo_gen always_fails (py ''Write f.'') no_files) = FailedMaxAttempts \<and>
   code (snd (main demo_config demo_gen always_fails (py ''Write f.'') no_files)) =
     demo_candidate 3 \<and>
   files (snd (main demo_config demo_gen always_fails (py ''Write f.'') no_files))
     (source_file demo_config) = Some (demo_candidate 2) \<and>
   demo_candidate 3 \<noteq> demo_candidate 2 \<and>
   files (snd (main demo_config demo_gen always_fails (py ''Write f.'') no_files))
     (py ''foo1.py'') = Some (demo_candidate 0) \<and>
   files (snd (main demo_config demo_gen always_fails (py ''Write f.'') no_files))
     (py ''foo2.py'') = Some (demo_candidate 1) \<and>
   files (snd (main demo_config demo_gen always_fails (py ''Write f.'') no_files))
     (py ''foo3.py'') = None \<and>
   test_code clash_config (always_fails 0) (demo_candidate 0) (source_file clash_config) 1
     no_files = Inr ((False, [], py ''NameError''), no_files) \<and>
   fst (main clash_config demo_gen always_fails (py ''Write f.'') no_files) =
     Aborted FileNotFoundError"
  by (simp add: run_eval str_eval sanitize_eval demo_eval refine_loop.simps str_nat.simps)

text \<open>
  Claim C9, where the code departs from it. With a source file named
  \<open>temp_runtime_error.txt\<close>, the runner with \<open>print_runtime_error_messages\<close> runs the
  candidate, which fails; without it the runner empties the file first, and the interpreter
  runs an empty script, which succeeds. The triple differs, and so does the end of the run.
  For every other file name the triple is the same (\<open>test_code_flag\<close>).
\<close>

theorem flag_decides_result_on_name_clash:
  "map_sum id fst
     (test_code (clash_config\<lparr>print_runtime_error_messages := True\<rparr>) (empty_only 0)
        (demo_candidate 0) (source_file clash_config) 1 no_files) =
     Inr (False, [], py ''NameError'') \<and>
   map_sum id fst
     (test_code (clash_config\<lparr>print_runtime_error_messages := False\<rparr>) (empty_only 0)
        (demo_candidate 0) (source_file clash_config) 1 no_files) =
     Inr (True, [], []) \<and>
   fst (main (clash_config\<lparr>print_runtime_error_messages := True\<rparr>) demo_gen empty_only
     (py ''Write f.'') no_files) = FailedMaxAttempts \<and>
   fst (main (clash_config\<lparr>print_runtime_error_messages := False\<rparr>) demo_gen empty_only
     (py ''Write f.'') no_files) = Succeeded"
  by (simp add: run_eval str_eval sanitize_eval demo_eval refine_loop.simps str_nat.simps)

end
